theory Spec2Isabelle
  imports Main
begin

section \<open>Values, types and errors of the Go program\<close>

text \<open>
  The package \<open>env\<close> fills the fields of a struct from the process environment, guided by
  the struct tags \<open>env\<close>, \<open>envDefault\<close>, \<open>envExpand\<close> and \<open>envSeparator\<close>.  It works on
  \<open>reflect.Value\<close>s; the embedding keeps what the code inspects of them: the kind and
  identity of a field's type, whether the field is exported, its tags and its current
  value.
\<close>

text \<open>The reflect kinds that \<open>set\<close> and \<open>doParse\<close> tell apart; every other kind is \<open>KOther\<close>.\<close>

datatype kind =
  KBool | KInt | KUint | KInt64 | KUint64 | KFloat32 | KFloat64 | KString
  | KSlice | KPtr | KStruct | KOther

text \<open>
  Go types as far as the code compares them.  \<open>TNamed n u\<close> is a defined type whose
  \<open>String()\<close> is \<open>n\<close> and whose underlying type is \<open>u\<close>: \<open>time.Duration\<close> is
  \<open>TNamed ''time.Duration'' TInt64\<close> and \<open>url.URL\<close> is \<open>TNamed ''url.URL'' TStruct\<close>.
\<close>

datatype gotype =
  TBool | TInt | TUint | TInt64 | TUint64 | TFloat32 | TFloat64 | TString
  | TSlice gotype | TPtr gotype | TStruct | TOther
  | TNamed string gotype

fun Kind :: "gotype \<Rightarrow> kind" where
  "Kind TBool = KBool"
| "Kind TInt = KInt"
| "Kind TUint = KUint"
| "Kind TInt64 = KInt64"
| "Kind TUint64 = KUint64"
| "Kind TFloat32 = KFloat32"
| "Kind TFloat64 = KFloat64"
| "Kind TString = KString"
| "Kind (TSlice t) = KSlice"
| "Kind (TPtr t) = KPtr"
| "Kind TStruct = KStruct"
| "Kind TOther = KOther"
| "Kind (TNamed n u) = Kind u"

text \<open>\<open>Type.Elem()\<close>; Go panics on a type that is neither a slice nor a pointer (\<open>None\<close>).\<close>

fun Elem :: "gotype \<Rightarrow> gotype option" where
  "Elem (TSlice t) = Some t"
| "Elem (TPtr t) = Some t"
| "Elem (TNamed n u) = Elem u"
| "Elem t = None"

text \<open>\<open>Type.String() == "time.Duration"\<close>: only a defined type prints as a qualified name.\<close>

fun is_Duration :: "gotype \<Rightarrow> bool" where
  "is_Duration (TNamed n u) = (n = ''time.Duration'')"
| "is_Duration t = False"

definition time_Duration :: gotype where
  "time_Duration = TNamed ''time.Duration'' TInt64"

definition url_URL :: gotype where
  "url_URL = TNamed ''url.URL'' TStruct"

text \<open>
  A \<open>reflect.StructField\<close> with its four tags already looked up (\<open>Tag.Get\<close> returns the
  empty string for a tag that is not there).  A field of a struct reached through a
  pointer is addressable, so \<open>CanSet\<close> is true exactly when the field is exported.
\<close>

record sfield =
  Name :: string
  Type :: gotype
  Exported :: bool
  Tag_env :: string
  Tag_envDefault :: string
  Tag_envExpand :: string
  Tag_envSeparator :: string

definition CanSet :: "sfield \<Rightarrow> bool" where
  "CanSet d = Exported d"

text \<open>A float is kept as its IEEE-754 bit pattern (\<open>math.Float64frombits\<close>).\<close>

datatype float64 = Float64frombits nat

text \<open>
  Values.  A struct value carries its fields in declaration order, each with its
  descriptor.  \<open>VNil\<close> is a nil pointer (or a nil interface), \<open>VPtr x\<close> a pointer to \<open>x\<close>;
  the pointee is owned by the pointer, so two fields never share a referent and no
  struct contains itself.  \<open>VInt\<close> serves the signed kinds (a \<open>time.Duration\<close> is its
  number of nanoseconds), \<open>VUint\<close> the unsigned ones.
\<close>

datatype gvalue =
  VBool bool | VInt int | VUint nat | VFloat float64 | VString string
  | VSlice "gvalue list" | VNil | VPtr gvalue
  | VStruct "(sfield \<times> gvalue) list"
  | VOther

definition IsNil :: "gvalue \<Rightarrow> bool" where
  "IsNil v = (v = VNil)"

text \<open>
  Errors.  The three sentinels of the package are values of their own; every other
  error (\<open>errors.New\<close>, \<open>fmt.Errorf\<close>, the errors of \<open>strconv\<close>, \<open>net/url\<close>, \<open>time\<close>
  and of user code) is known by its message.
\<close>

datatype error =
  ErrNotAStructPtr | ErrUnsupportedType | ErrUnsupportedSliceType | ErrorString string

fun Error :: "error \<Rightarrow> string" where
  "Error ErrNotAStructPtr = ''Expected a pointer to a Struct''"
| "Error ErrUnsupportedType = ''Type is not supported''"
| "Error ErrUnsupportedSliceType = ''Unsupported slice type''"
| "Error (ErrorString m) = m"

text \<open>A call either panics or returns.\<close>

datatype panic = PanicString string | PanicReflect

datatype 'a result = Panic panic | Return 'a

section \<open>The environment and the standard library\<close>

text \<open>
  The process environment, read through \<open>os.LookupEnv\<close>: the variables that are set,
  with their values (the empty string is a value).
\<close>

type_synonym environ = "string \<rightharpoonup> string"

definition LookupEnv :: "environ \<Rightarrow> string \<Rightarrow> string option" where
  "LookupEnv e key = e key"

text \<open>
  What the package calls in the Go standard library and in user code, beyond
  \<open>strings.Split\<close>, \<open>strings.Join\<close>, \<open>strings.ToLower\<close>, \<open>strconv.ParseBool\<close>,
  \<open>strconv.ParseInt\<close> and \<open>strconv.ParseUint\<close>, which are written out below:
  \<^item> \<open>Quote\<close>: \<open>strconv.Quote\<close>, the \<open>%q\<close> verb of \<open>fmt\<close>;
  \<^item> \<open>ExpandEnv\<close>: \<open>os.ExpandEnv\<close>, which reads the environment;
  \<^item> \<open>ParseFloat\<close>, \<open>ParseDuration\<close>, \<open>url_Parse\<close>: \<open>strconv.ParseFloat\<close> (with the bit
    size), \<open>time.ParseDuration\<close> (nanoseconds) and \<open>url.Parse\<close> (the URL pointed to);
  \<^item> \<open>TextUnmarshaler t\<close>: whether a value of type \<open>t\<close> (always a pointer here) passes the
    type assertion to \<open>encoding.TextUnmarshaler\<close>, and then its \<open>UnmarshalText\<close>: from
    the text and the referent to the error and the referent afterwards;
  \<^item> \<open>Zero t\<close>: the zero value of \<open>t\<close> (\<open>reflect.New\<close>, \<open>reflect.MakeSlice\<close>).
  Every theorem below holds for every such library.
\<close>

record golib =
  Quote :: "string \<Rightarrow> string"
  ExpandEnv :: "environ \<Rightarrow> string \<Rightarrow> string"
  ParseFloat :: "string \<Rightarrow> nat \<Rightarrow> error + float64"
  ParseDuration :: "string \<Rightarrow> error + int"
  url_Parse :: "string \<Rightarrow> error + gvalue"
  TextUnmarshaler :: "gotype \<Rightarrow> (string \<Rightarrow> gvalue \<Rightarrow> error option \<times> gvalue) option"
  Zero :: "gotype \<Rightarrow> gvalue"

subsection \<open>Strings\<close>

text \<open>\<open>strings.Index\<close>: the first position at which \<open>sep\<close> occurs in \<open>s\<close>.\<close>

fun Index :: "string \<Rightarrow> string \<Rightarrow> nat option" where
  "Index [] sep = (if sep = [] then Some 0 else None)"
| "Index (c # cs) sep =
     (if take (length sep) (c # cs) = sep then Some 0 else map_option Suc (Index cs sep))"

text \<open>
  \<open>strings.Split(s, sep)\<close> for a separator that is not empty: cut at the first
  occurrence, go on behind it.  Both callers pass such a separator (\<open>","\<close> in
  \<open>parseKeyForOption\<close>, and \<open>handleSlice\<close> replaces an empty one by \<open>","\<close>); for the empty
  separator Go cuts after every UTF-8 sequence, the model after every byte.
\<close>

function Split :: "string \<Rightarrow> string \<Rightarrow> string list" where
  "Split s sep =
     (if sep = [] then map (\<lambda>c. [c]) s
      else case Index s sep of
             None \<Rightarrow> [s]
           | Some i \<Rightarrow> take i s # Split (drop (i + length sep) s) sep)"
  by pat_completeness auto
termination
proof (relation "measure (\<lambda>(s, sep). length s)")
  show "wf (measure (\<lambda>(s, sep). length s))" by simp
next
  fix s sep :: string and i
  assume sep: "sep \<noteq> []" and idx: "Index s sep = Some i"
  have bound: "Index t sep = Some j \<Longrightarrow> j + length sep \<le> length t" for t j
  proof (induction t arbitrary: j)
    case Nil
    then show ?case by (simp split: if_splits)
  next
    case (Cons c cs)
    show ?case
    proof (cases "take (length sep) (c # cs) = sep")
      case True
      then have "length (take (length sep) (c # cs)) = length sep" by simp
      then have "length sep \<le> length (c # cs)" by (simp del: take_Suc_Cons)
      with True Cons.prems show ?thesis by simp
    next
      case False
      with Cons.prems obtain k where "Index cs sep = Some k" "j = Suc k" by auto
      with Cons.IH show ?thesis by fastforce
    qed
  qed
  from sep bound [OF idx] have "0 < length sep" "i + length sep \<le> length s" by auto
  then have "length (drop (i + length sep) s) < length s"
    by (simp del: length_greater_0_conv)
  then show "((drop (i + length sep) s, sep), (s, sep)) \<in> measure (\<lambda>(s, sep). length s)"
    by simp
qed

declare Split.simps [simp del]

text \<open>\<open>strings.Join\<close>.\<close>

fun Join :: "string list \<Rightarrow> string \<Rightarrow> string" where
  "Join [] sep = []"
| "Join [x] sep = x"
| "Join (x # y # xs) sep = x @ sep @ Join (y # xs) sep"

text \<open>
  \<open>strings.ToLower\<close> on the ASCII letters; the code only compares its result with
  \<open>"true"\<close>, which no other letter lower-cases into.
\<close>

definition lower :: "char \<Rightarrow> char" where
  "lower c =
     (case map_of (zip ''ABCDEFGHIJKLMNOPQRSTUVWXYZ'' ''abcdefghijklmnopqrstuvwxyz'') c of
        Some l \<Rightarrow> l
      | None \<Rightarrow> c)"

definition ToLower :: "string \<Rightarrow> string" where
  "ToLower s = map lower s"

subsection \<open>Numbers and booleans\<close>

text \<open>
  \<open>strconv.ParseUint(s, 10, bitSize)\<close> and \<open>strconv.ParseInt(s, 10, bitSize)\<close>: the code
  always passes base 10, where only the digits \<open>0\<close> to \<open>9\<close> are accepted (an underscore
  is a digit separator only for base 0).  The loop of \<open>ParseUint\<close> reports a value out
  of range at the first digit that takes it past the bound.
\<close>

datatype numerr = ErrSyntax | ErrRange

definition digit :: "char \<Rightarrow> nat option" where
  "digit c = map_of (zip ''0123456789'' [0, 1, 2, 3, 4, 5, 6, 7, 8, 9]) c"

fun ParseUint_loop :: "nat \<Rightarrow> nat \<Rightarrow> string \<Rightarrow> numerr + nat" where
  "ParseUint_loop maxVal n [] = Inr n"
| "ParseUint_loop maxVal n (c # cs) =
     (case digit c of
        None \<Rightarrow> Inl ErrSyntax
      | Some d \<Rightarrow>
          if n \<ge> (2 ^ 64 - 1) div 10 + 1 then Inl ErrRange
          else if n * 10 + d \<ge> 2 ^ 64 \<or> n * 10 + d > maxVal then Inl ErrRange
          else ParseUint_loop maxVal (n * 10 + d) cs)"

definition ParseUint_digits :: "string \<Rightarrow> nat \<Rightarrow> numerr + nat" where
  "ParseUint_digits s bitSize =
     (if s = [] then Inl ErrSyntax else ParseUint_loop (2 ^ bitSize - 1) 0 s)"

text \<open>The message of a \<open>*strconv.NumError\<close>.\<close>

definition NumError :: "golib \<Rightarrow> string \<Rightarrow> string \<Rightarrow> numerr \<Rightarrow> error" where
  "NumError L fn num err =
     ErrorString (''strconv.'' @ fn @ '': parsing '' @ Quote L num @ '': '' @
       (case err of ErrSyntax \<Rightarrow> ''invalid syntax'' | ErrRange \<Rightarrow> ''value out of range''))"

definition ParseUint :: "golib \<Rightarrow> string \<Rightarrow> nat \<Rightarrow> error + nat" where
  "ParseUint L s bitSize =
     (case ParseUint_digits s bitSize of
        Inl err \<Rightarrow> Inl (NumError L ''ParseUint'' s err)
      | Inr n \<Rightarrow> Inr n)"

definition ParseInt :: "golib \<Rightarrow> string \<Rightarrow> nat \<Rightarrow> error + int" where
  "ParseInt L s0 bitSize =
     (case s0 of
        [] \<Rightarrow> Inl (NumError L ''ParseInt'' s0 ErrSyntax)
      | c # cs \<Rightarrow>
          let neg = (c = CHR ''-'');
              s = (if c = CHR ''+'' \<or> c = CHR ''-'' then cs else s0);
              cutoff = 2 ^ (bitSize - 1)
          in case ParseUint_digits s bitSize of
               Inl ErrSyntax \<Rightarrow> Inl (NumError L ''ParseInt'' s0 ErrSyntax)
             | Inl ErrRange \<Rightarrow> Inl (NumError L ''ParseInt'' s0 ErrRange)
             | Inr un \<Rightarrow>
                 if \<not> neg \<and> un \<ge> cutoff then Inl (NumError L ''ParseInt'' s0 ErrRange)
                 else if neg \<and> un > cutoff then Inl (NumError L ''ParseInt'' s0 ErrRange)
                 else Inr (if neg then - int un else int un))"

definition ParseBool :: "golib \<Rightarrow> string \<Rightarrow> error + bool" where
  "ParseBool L str =
     (if str \<in> set [''1'', ''t'', ''T'', ''true'', ''TRUE'', ''True''] then Inr True
      else if str \<in> set [''0'', ''f'', ''F'', ''false'', ''FALSE'', ''False''] then Inr False
      else Inl (NumError L ''ParseBool'' str ErrSyntax))"

section \<open>Environment accessors\<close>

definition Get :: "environ \<Rightarrow> string \<Rightarrow> string" where
  "Get e key = (case LookupEnv e key of Some v \<Rightarrow> v | None \<Rightarrow> [])"

definition GetOr :: "environ \<Rightarrow> string \<Rightarrow> string \<Rightarrow> string" where
  "GetOr e key defaultValue =
     (case LookupEnv e key of Some v \<Rightarrow> v | None \<Rightarrow> defaultValue)"

text \<open>\<open>MustGet\<close> takes a default value and panics with a message citing the key.\<close>

definition MustGet :: "environ \<Rightarrow> string \<Rightarrow> string \<Rightarrow> string result" where
  "MustGet e key defaultValue =
     (case LookupEnv e key of
        Some v \<Rightarrow> Return v
      | None \<Rightarrow>
          Panic (PanicString
            (''expected environment variable '' @ [CHR 0x22] @ key @ [CHR 0x22] @
             '' does not exist'')))"

section \<open>Field resolver\<close>

definition getOrWithPrefix :: "environ \<Rightarrow> string \<Rightarrow> string \<Rightarrow> string \<Rightarrow> string" where
  "getOrWithPrefix e key prefix defaultValue =
     (case LookupEnv e (prefix @ key) of Some v \<Rightarrow> v | None \<Rightarrow> defaultValue)"

text \<open>The two errors of the resolver, as \<open>fmt.Errorf\<close> formats them.\<close>

definition RequiredNotSet :: "golib \<Rightarrow> string \<Rightarrow> error" where
  "RequiredNotSet L key =
     ErrorString (''required environment variable '' @ Quote L key @ '' is not set'')"

definition OptionNotSupported :: "golib \<Rightarrow> string \<Rightarrow> error" where
  "OptionNotSupported L opt =
     ErrorString (''env tag option '' @ Quote L opt @ '' not supported'')"

definition getRequired :: "golib \<Rightarrow> environ \<Rightarrow> string \<Rightarrow> string \<Rightarrow> string \<times> error option" where
  "getRequired L e key prefix =
     (case LookupEnv e (prefix @ key) of
        Some v \<Rightarrow> (v, None)
      | None \<Rightarrow> ([], Some (RequiredNotSet L key)))"

text \<open>
  \<open>parseKeyForOption\<close> returns \<open>opts[0]\<close> and \<open>opts[1:]\<close> of the split tag; \<open>Split\<close> with
  the separator \<open>","\<close> never returns the empty list (\<open>Split_not_Nil\<close> below).
\<close>

definition parseKeyForOption :: "string \<Rightarrow> string \<times> string list" where
  "parseKeyForOption key = (let opts = Split key '','' in (hd opts, tl opts))"

text \<open>
  The loop of \<open>get\<close> over the options: \<open>val\<close> and \<open>err\<close> are assigned by each option in
  turn, so what a later option assigns replaces what an earlier one did.
\<close>

fun get_opts ::
  "golib \<Rightarrow> environ \<Rightarrow> string \<Rightarrow> string \<Rightarrow> string list \<Rightarrow> string \<times> error option
    \<Rightarrow> string \<times> error option" where
  "get_opts L e key prefix [] (val, err) = (val, err)"
| "get_opts L e key prefix (opt # opts) (val, err) =
     get_opts L e key prefix opts
       (if opt = [] then (val, err)
        else if opt = ''required'' then getRequired L e key prefix
        else (val, Some (OptionNotSupported L opt)))"

definition get :: "golib \<Rightarrow> environ \<Rightarrow> sfield \<Rightarrow> string \<Rightarrow> string \<times> error option" where
  "get L e field prefix =
     (let (key, opts) = parseKeyForOption (Tag_env field);
          defaultValue = Tag_envDefault field;
          val = getOrWithPrefix e key prefix defaultValue;
          expandVar = Tag_envExpand field;
          val = (if ToLower expandVar = ''true'' then ExpandEnv L e val else val)
      in get_opts L e key prefix opts (val, None))"

section \<open>Conversion\<close>

text \<open>
  \<open>field.Set\<close>, \<open>SetString\<close>, \<open>SetBool\<close>, \<open>SetInt\<close>, \<open>SetUint\<close> and \<open>SetFloat\<close> of
  \<open>reflect\<close> panic on a field that is not settable.  A conversion returns the error,
  if any, and the value the field holds afterwards.
\<close>

definition reflect_Set :: "sfield \<Rightarrow> gvalue \<Rightarrow> (error option \<times> gvalue) result" where
  "reflect_Set field x = (if CanSet field then Return (None, x) else Panic PanicReflect)"

text \<open>
  \<open>parseInts\<close>, \<open>parseInt64s\<close>, \<open>parseUint64s\<close>, \<open>parseFloat32s\<close>, \<open>parseFloat64s\<close>,
  \<open>parseBools\<close>, \<open>parseDurations\<close> and \<open>parseUrls\<close> are the same loop around eight
  converters: append each converted element, return at the first error.
\<close>

fun parse_loop ::
  "(string \<Rightarrow> error + gvalue) \<Rightarrow> string list \<Rightarrow> gvalue list \<Rightarrow> error + gvalue list" where
  "parse_loop conv [] slice = Inr slice"
| "parse_loop conv (v # data) slice =
     (case conv v of
        Inl err \<Rightarrow> Inl err
      | Inr x \<Rightarrow> parse_loop conv data (slice @ [x]))"

definition parseInts :: "golib \<Rightarrow> string list \<Rightarrow> error + gvalue list" where
  "parseInts L data = parse_loop (\<lambda>v. map_sum id VInt (ParseInt L v 32)) data []"

definition parseInt64s :: "golib \<Rightarrow> string list \<Rightarrow> error + gvalue list" where
  "parseInt64s L data = parse_loop (\<lambda>v. map_sum id VInt (ParseInt L v 64)) data []"

definition parseUint64s :: "golib \<Rightarrow> string list \<Rightarrow> error + gvalue list" where
  "parseUint64s L data = parse_loop (\<lambda>v. map_sum id VUint (ParseUint L v 64)) data []"

definition parseFloat32s :: "golib \<Rightarrow> string list \<Rightarrow> error + gvalue list" where
  "parseFloat32s L data = parse_loop (\<lambda>v. map_sum id VFloat (ParseFloat L v 32)) data []"

definition parseFloat64s :: "golib \<Rightarrow> string list \<Rightarrow> error + gvalue list" where
  "parseFloat64s L data = parse_loop (\<lambda>v. map_sum id VFloat (ParseFloat L v 64)) data []"

definition parseBools :: "golib \<Rightarrow> string list \<Rightarrow> error + gvalue list" where
  "parseBools L data = parse_loop (\<lambda>v. map_sum id VBool (ParseBool L v)) data []"

definition parseDurations :: "golib \<Rightarrow> string list \<Rightarrow> error + gvalue list" where
  "parseDurations L data = parse_loop (\<lambda>v. map_sum id VInt (ParseDuration L v)) data []"

definition parseUrls :: "golib \<Rightarrow> string list \<Rightarrow> error + gvalue list" where
  "parseUrls L data = parse_loop (url_Parse L) data []"

text \<open>
  \<open>parseTextUnmarshalers\<close> decodes each substring into a fresh zero element (behind a
  new pointer when the element type is a pointer) and stores the slice only when
  every element decoded.  The type assertion without \<open>ok\<close> panics when it fails.
\<close>

fun unmarshal_loop ::
  "(string \<Rightarrow> gvalue \<Rightarrow> error option \<times> gvalue) \<Rightarrow> gvalue \<Rightarrow> bool \<Rightarrow> string list
    \<Rightarrow> gvalue list \<Rightarrow> error + gvalue list" where
  "unmarshal_loop tm z isPtr [] slice = Inr slice"
| "unmarshal_loop tm z isPtr (v # data) slice =
     (case tm v z of
        (Some err, x) \<Rightarrow> Inl err
      | (None, x) \<Rightarrow> unmarshal_loop tm z isPtr data (slice @ [if isPtr then VPtr x else x]))"

definition parseTextUnmarshalers ::
  "golib \<Rightarrow> sfield \<Rightarrow> gvalue \<Rightarrow> string list \<Rightarrow> (error option \<times> gvalue) result" where
  "parseTextUnmarshalers L field cur data =
     (case Elem (Type field) of
        None \<Rightarrow> Panic PanicReflect
      | Some elemType \<Rightarrow>
          (case (if Kind elemType = KPtr then Elem elemType else Some elemType) of
             None \<Rightarrow> Panic PanicReflect
           | Some t \<Rightarrow>
               (case TextUnmarshaler L (TPtr t) of
                  None \<Rightarrow> Panic PanicReflect
                | Some tm \<Rightarrow>
                    (case unmarshal_loop tm (Zero L t) (Kind elemType = KPtr) data [] of
                       Inl err \<Rightarrow> Return (Some err, cur)
                     | Inr slice \<Rightarrow> reflect_Set field (VSlice slice)))))"

text \<open>What \<open>handleSlice\<close> does with the outcome of one of the eight loops.\<close>

definition set_slice ::
  "sfield \<Rightarrow> gvalue \<Rightarrow> error + gvalue list \<Rightarrow> (error option \<times> gvalue) result" where
  "set_slice field cur r =
     (case r of
        Inl err \<Rightarrow> Return (Some err, cur)
      | Inr xs \<Rightarrow> reflect_Set field (VSlice xs))"

definition handleSlice ::
  "golib \<Rightarrow> sfield \<Rightarrow> gvalue \<Rightarrow> string \<Rightarrow> string \<Rightarrow> (error option \<times> gvalue) result" where
  "handleSlice L field cur value separator =
     (let separator = (if separator = [] then '','' else separator);
          splitData = Split value separator;
          t = Type field
      in if t = TSlice TString then reflect_Set field (VSlice (map VString splitData))
         else if t = TSlice TInt then set_slice field cur (parseInts L splitData)
         else if t = TSlice TInt64 then set_slice field cur (parseInt64s L splitData)
         else if t = TSlice TUint64 then set_slice field cur (parseUint64s L splitData)
         else if t = TSlice TFloat32 then set_slice field cur (parseFloat32s L splitData)
         else if t = TSlice TFloat64 then set_slice field cur (parseFloat64s L splitData)
         else if t = TSlice TBool then set_slice field cur (parseBools L splitData)
         else if t = TSlice time_Duration then set_slice field cur (parseDurations L splitData)
         else if t = TSlice url_URL then set_slice field cur (parseUrls L splitData)
         else
           (case Elem t of
              None \<Rightarrow> Panic PanicReflect
            | Some elemType \<Rightarrow>
                (case (if Kind elemType = KPtr then Elem elemType else Some elemType) of
                   None \<Rightarrow> Panic PanicReflect
                 | Some elemType \<Rightarrow>
                     if TextUnmarshaler L (TPtr elemType) = None
                     then Return (Some ErrUnsupportedSliceType, cur)
                     else parseTextUnmarshalers L field cur splitData)))"

text \<open>
  \<open>handleTextUnmarshaler\<close>.  A nil pointer field is first set to a new zero value, also
  when the type then turns out not to be a text unmarshaler; \<open>field.Interface()\<close>
  panics on a field that is not exported; \<open>UnmarshalText\<close> works on the referent.
\<close>

definition handleTextUnmarshaler ::
  "golib \<Rightarrow> sfield \<Rightarrow> gvalue \<Rightarrow> string \<Rightarrow> (error option \<times> gvalue) result" where
  "handleTextUnmarshaler L field cur value =
     (if Kind (Type field) = KPtr then
        (if \<not> CanSet field then Panic PanicReflect
         else
           (case (if IsNil cur then map_option (\<lambda>t. VPtr (Zero L t)) (Elem (Type field))
                  else Some cur) of
              Some (VPtr x) \<Rightarrow>
                (case TextUnmarshaler L (Type field) of
                   None \<Rightarrow> Return (Some ErrUnsupportedType, VPtr x)
                 | Some tm \<Rightarrow> (case tm value x of (err, x') \<Rightarrow> Return (err, VPtr x')))
            | _ \<Rightarrow> Panic PanicReflect))
      else
        (if \<not> CanSet field then Panic PanicReflect
         else
           (case TextUnmarshaler L (TPtr (Type field)) of
              None \<Rightarrow> Return (Some ErrUnsupportedType, cur)
            | Some tm \<Rightarrow> (case tm value cur of (err, x') \<Rightarrow> Return (err, x')))))"

text \<open>\<open>CustomParsers\<close>: a parser returns an error or the value to store.\<close>

type_synonym ParserFunc = "string \<Rightarrow> error + gvalue"

type_synonym CustomParsers = "gotype \<rightharpoonup> ParserFunc"

text \<open>What \<open>set\<close> does with the outcome of a scalar converter.\<close>

definition set_scalar ::
  "sfield \<Rightarrow> gvalue \<Rightarrow> error + gvalue \<Rightarrow> (error option \<times> gvalue) result" where
  "set_scalar field cur r =
     (case r of
        Inl err \<Rightarrow> Return (Some err, cur)
      | Inr x \<Rightarrow> reflect_Set field x)"

text \<open>
  \<open>set\<close>.  A registered parser is trusted to return a value of the type it is registered
  for (\<open>field.Set\<close> panics otherwise).  \<open>field.Set(reflect.ValueOf(v))\<close> with a
  \<open>float64\<close> panics on a field whose type is a defined type of kind \<open>Float64\<close>.
\<close>

definition set_go ::
  "golib \<Rightarrow> sfield \<Rightarrow> gvalue \<Rightarrow> string \<Rightarrow> CustomParsers \<Rightarrow> (error option \<times> gvalue) result" where
  "set_go L refType cur value funcMap =
     (case funcMap (Type refType) of
        Some parserFunc \<Rightarrow>
          (case parserFunc value of
             Inl err \<Rightarrow> Return (Some (ErrorString (''Custom parser error: '' @ Error err)), cur)
           | Inr val \<Rightarrow> reflect_Set refType val)
      | None \<Rightarrow>
          if Type refType = url_URL then
            (case url_Parse L value of
               Inl err \<Rightarrow>
                 Return (Some (ErrorString (''Unable to complete URL parse: '' @ Error err)), cur)
             | Inr u \<Rightarrow> reflect_Set refType u)
          else
            (case Kind (Type refType) of
               KSlice \<Rightarrow> handleSlice L refType cur value (Tag_envSeparator refType)
             | KString \<Rightarrow> reflect_Set refType (VString value)
             | KBool \<Rightarrow> set_scalar refType cur (map_sum id VBool (ParseBool L value))
             | KInt \<Rightarrow> set_scalar refType cur (map_sum id VInt (ParseInt L value 32))
             | KUint \<Rightarrow> set_scalar refType cur (map_sum id VUint (ParseUint L value 32))
             | KFloat32 \<Rightarrow> set_scalar refType cur (map_sum id VFloat (ParseFloat L value 32))
             | KFloat64 \<Rightarrow>
                 (case ParseFloat L value 64 of
                    Inl err \<Rightarrow> Return (Some err, cur)
                  | Inr v \<Rightarrow>
                      if Type refType = TFloat64 then reflect_Set refType (VFloat v)
                      else Panic PanicReflect)
             | KInt64 \<Rightarrow>
                 if is_Duration (Type refType)
                 then set_scalar refType cur (map_sum id VInt (ParseDuration L value))
                 else set_scalar refType cur (map_sum id VInt (ParseInt L value 64))
             | KUint64 \<Rightarrow> set_scalar refType cur (map_sum id VUint (ParseUint L value 64))
             | _ \<Rightarrow> handleTextUnmarshaler L refType cur value))"

section \<open>Population engine\<close>

text \<open>
  \<open>doParse\<close> mutates the struct in place and returns an error; the model returns the
  error, the fields as they are when the call returns, and the calls made to the hook
  \<open>OnEnvVarSet\<close> when one is registered (the field and the raw string), in order.
  \<open>doParse_loop\<close> is the \<open>for\<close> loop: \<open>done\<close> are the fields already visited, \<open>rest\<close>
  those still to visit.  A non-nil settable pointer field is handed to \<open>Parse\<close>, which
  is \<open>ParseWithPrefixFuncs\<close> with the empty prefix and an empty map.

  \<open>ParseWithPrefixFuncs\<close> takes the \<open>interface{}\<close> it is given: \<open>VPtr (VStruct ref)\<close> is
  a pointer to a struct; every other value fails one of the two kind checks (a nil
  pointer has no referent, whose kind is then \<open>Invalid\<close>).
\<close>

type_synonym fields = "(sfield \<times> gvalue) list"

type_synonym calls = "(sfield \<times> string) list"

function (sequential)
  doParse_loop ::
    "golib \<Rightarrow> environ \<Rightarrow> string \<Rightarrow> CustomParsers \<Rightarrow> fields \<Rightarrow> fields \<Rightarrow> string list \<Rightarrow> calls
      \<Rightarrow> (error option \<times> fields \<times> calls) result"
and doParse ::
    "golib \<Rightarrow> environ \<Rightarrow> fields \<Rightarrow> string \<Rightarrow> CustomParsers
      \<Rightarrow> (error option \<times> fields \<times> calls) result"
and ParseWithPrefixFuncs ::
    "golib \<Rightarrow> environ \<Rightarrow> gvalue \<Rightarrow> string \<Rightarrow> CustomParsers
      \<Rightarrow> (error option \<times> gvalue \<times> calls) result"
and Parse :: "golib \<Rightarrow> environ \<Rightarrow> gvalue \<Rightarrow> (error option \<times> gvalue \<times> calls) result"
where
  "doParse_loop L e prefix funcMap done [] errorList calls =
     Return (if errorList = [] then None else Some (ErrorString (Join errorList ''. '')),
             done, calls)"
| "doParse_loop L e prefix funcMap done ((refTypeField, refField) # rest) errorList calls =
     (if Kind (Type refTypeField) = KPtr \<and> \<not> IsNil refField \<and> CanSet refTypeField then
        (case Parse L e refField of
           Panic p \<Rightarrow> Panic p
         | Return (Some err, v, cs) \<Rightarrow>
             Return (Some err, done @ (refTypeField, v) # rest, calls @ cs)
         | Return (None, v, cs) \<Rightarrow>
             doParse_loop L e prefix funcMap (done @ [(refTypeField, v)]) rest errorList
               (calls @ cs))
      else
        (case get L e refTypeField prefix of
           (value, Some err) \<Rightarrow>
             doParse_loop L e prefix funcMap (done @ [(refTypeField, refField)]) rest
               (errorList @ [Error err]) calls
         | (value, None) \<Rightarrow>
             if value = [] then
               doParse_loop L e prefix funcMap (done @ [(refTypeField, refField)]) rest
                 errorList calls
             else
               (case set_go L refTypeField refField value funcMap of
                  Panic p \<Rightarrow> Panic p
                | Return (Some err, v) \<Rightarrow>
                    doParse_loop L e prefix funcMap (done @ [(refTypeField, v)]) rest
                      (errorList @ [Error err]) calls
                | Return (None, v) \<Rightarrow>
                    doParse_loop L e prefix funcMap (done @ [(refTypeField, v)]) rest
                      errorList (calls @ [(refTypeField, value)]))))"
| "doParse L e ref prefix funcMap = doParse_loop L e prefix funcMap [] ref [] []"
| "ParseWithPrefixFuncs L e (VPtr (VStruct ref)) prefix funcMap =
     (case doParse L e ref prefix funcMap of
        Panic p \<Rightarrow> Panic p
      | Return (err, ref', cs) \<Rightarrow> Return (err, VPtr (VStruct ref'), cs))"
| "ParseWithPrefixFuncs L e v prefix funcMap = Return (Some ErrNotAStructPtr, v, [])"
| "Parse L e v = ParseWithPrefixFuncs L e v [] Map.empty"
  by pat_completeness auto
termination
  by (relation "measure (\<lambda>x. case x of
      Inl (Inl (L, e, prefix, funcMap, done, rest, errorList, calls)) \<Rightarrow>
        4 * size_list (size_prod (\<lambda>d. 0) size) rest
    | Inl (Inr (L, e, ref, prefix, funcMap)) \<Rightarrow>
        4 * size_list (size_prod (\<lambda>d. 0) size) ref + 1
    | Inr (Inl (L, e, v, prefix, funcMap)) \<Rightarrow> 4 * size v + 2
    | Inr (Inr (L, e, v)) \<Rightarrow> 4 * size v + 3)") simp_all

definition ParseWithPrefix ::
  "golib \<Rightarrow> environ \<Rightarrow> gvalue \<Rightarrow> string \<Rightarrow> (error option \<times> gvalue \<times> calls) result" where
  "ParseWithPrefix L e v prefix = ParseWithPrefixFuncs L e v prefix Map.empty"

definition ParseWithFuncs ::
  "golib \<Rightarrow> environ \<Rightarrow> gvalue \<Rightarrow> CustomParsers \<Rightarrow> (error option \<times> gvalue \<times> calls) result" where
  "ParseWithFuncs L e v funcMap = ParseWithPrefixFuncs L e v [] funcMap"

section \<open>The visit of one field\<close>

text \<open>
  The body of the loop of \<open>doParse\<close> as a function of the field it visits, in the words
  of the traversal: a non-nil settable pointer field is handed to \<open>Parse\<close> and an error
  from there aborts the whole traversal; any other field is resolved, and converted
  when the resolved string is not empty; an error of either is a message to record.
  \<open>Next v msg cs\<close>: the loop goes on, the field holds \<open>v\<close>, \<open>msg\<close> is the message recorded
  (if any) and \<open>cs\<close> are the calls made to the hook.  Lemma \<open>doParse_loop_step\<close> below
  shows that the loop does exactly this with each field.
\<close>

definition is_nested :: "sfield \<Rightarrow> gvalue \<Rightarrow> bool" where
  "is_nested refTypeField refField \<longleftrightarrow>
     Kind (Type refTypeField) = KPtr \<and> \<not> IsNil refField \<and> CanSet refTypeField"

datatype visit = Abort error gvalue calls | Fatal panic | Next gvalue "string option" calls

definition visit_field ::
  "golib \<Rightarrow> environ \<Rightarrow> string \<Rightarrow> CustomParsers \<Rightarrow> sfield \<times> gvalue \<Rightarrow> visit" where
  "visit_field L e prefix funcMap f =
     (case f of (refTypeField, refField) \<Rightarrow>
        if is_nested refTypeField refField then
          (case Parse L e refField of
             Panic p \<Rightarrow> Fatal p
           | Return (Some err, v, cs) \<Rightarrow> Abort err v cs
           | Return (None, v, cs) \<Rightarrow> Next v None cs)
        else
          (case get L e refTypeField prefix of
             (value, Some err) \<Rightarrow> Next refField (Some (Error err)) []
           | (value, None) \<Rightarrow>
               if value = [] then Next refField None []
               else
                 (case set_go L refTypeField refField value funcMap of
                    Panic p \<Rightarrow> Fatal p
                  | Return (Some err, v) \<Rightarrow> Next v (Some (Error err)) []
                  | Return (None, v) \<Rightarrow> Next v None [(refTypeField, value)])))"

text \<open>The traversal goes on to the next field: no nested parse failed, nothing panicked.\<close>

fun continues :: "visit \<Rightarrow> bool" where
  "continues (Next v msg cs) = True"
| "continues r = False"

text \<open>The field after its visit, the message recorded for it, the calls to the hook.\<close>

fun after :: "sfield \<times> gvalue \<Rightarrow> visit \<Rightarrow> sfield \<times> gvalue" where
  "after f (Next v msg cs) = (fst f, v)"
| "after f (Abort err v cs) = (fst f, v)"
| "after f (Fatal p) = f"

fun message :: "visit \<Rightarrow> string option" where
  "message (Next v msg cs) = msg"
| "message r = None"

fun hook_calls :: "visit \<Rightarrow> calls" where
  "hook_calls (Next v msg cs) = cs"
| "hook_calls (Abort err v cs) = cs"
| "hook_calls (Fatal p) = []"

text \<open>The outcome for a list of recorded messages: none, or the aggregate error.\<close>

definition aggregate :: "string list \<Rightarrow> error option" where
  "aggregate errorList =
     (if errorList = [] then None else Some (ErrorString (Join errorList ''. '')))"

text \<open>
  The element converter of each sequence type that \<open>handleSlice\<close> knows by name, in the
  order of its \<open>switch\<close>; \<open>None\<close> for every other type.
\<close>

definition slice_converter :: "golib \<Rightarrow> gotype \<Rightarrow> (string \<Rightarrow> error + gvalue) option" where
  "slice_converter L t =
     (if t = TSlice TString then Some (\<lambda>v. Inr (VString v))
      else if t = TSlice TInt then Some (\<lambda>v. map_sum id VInt (ParseInt L v 32))
      else if t = TSlice TInt64 then Some (\<lambda>v. map_sum id VInt (ParseInt L v 64))
      else if t = TSlice TUint64 then Some (\<lambda>v. map_sum id VUint (ParseUint L v 64))
      else if t = TSlice TFloat32 then Some (\<lambda>v. map_sum id VFloat (ParseFloat L v 32))
      else if t = TSlice TFloat64 then Some (\<lambda>v. map_sum id VFloat (ParseFloat L v 64))
      else if t = TSlice TBool then Some (\<lambda>v. map_sum id VBool (ParseBool L v))
      else if t = TSlice time_Duration then Some (\<lambda>v. map_sum id VInt (ParseDuration L v))
      else if t = TSlice url_URL then Some (url_Parse L)
      else None)"

text \<open>
  The converter of an element that is a text unmarshaler: decode into a zero element
  (behind a new pointer when the element type is a pointer).
\<close>

definition unmarshal_converter ::
  "(string \<Rightarrow> gvalue \<Rightarrow> error option \<times> gvalue) \<Rightarrow> gvalue \<Rightarrow> bool \<Rightarrow> string
    \<Rightarrow> error + gvalue" where
  "unmarshal_converter tm z isPtr v =
     (case tm v z of
        (Some err, x) \<Rightarrow> Inl err
      | (None, x) \<Rightarrow> Inr (if isPtr then VPtr x else x))"

text \<open>
  The converter that \<open>handleSlice\<close> applies to the substrings, for a field of type \<open>t\<close>:
  that of a sequence type known by name, or else the text unmarshaler of the element
  type; \<open>None\<close> when there is neither.
\<close>

definition element_converter :: "golib \<Rightarrow> gotype \<Rightarrow> (string \<Rightarrow> error + gvalue) option" where
  "element_converter L t =
     (case slice_converter L t of
        Some conv \<Rightarrow> Some conv
      | None \<Rightarrow>
          (case Elem t of
             None \<Rightarrow> None
           | Some elemType \<Rightarrow>
               (case (if Kind elemType = KPtr then Elem elemType else Some elemType) of
                  None \<Rightarrow> None
                | Some base \<Rightarrow>
                    (case TextUnmarshaler L (TPtr base) of
                       None \<Rightarrow> None
                     | Some tm \<Rightarrow>
                         Some (unmarshal_converter tm (Zero L base) (Kind elemType = KPtr))))))"

section \<open>Inputs for the examples\<close>

text \<open>
  A library for the closing examples.  Its \<open>Quote\<close> is that of Go on printable ASCII
  text without quotes and backslashes, its \<open>ExpandEnv\<close> that of Go on text without a
  dollar sign, and no type is a text unmarshaler; floats, durations and URLs do not
  occur in the examples, and their parsers reject every input.
\<close>

definition example_lib :: golib where
  "example_lib =
     \<lparr>Quote = (\<lambda>s. [CHR 0x22] @ s @ [CHR 0x22]),
      ExpandEnv = (\<lambda>e s. s),
      ParseFloat = (\<lambda>s bitSize. Inl (ErrorString ''strconv.ParseFloat'')),
      ParseDuration = (\<lambda>s. Inl (ErrorString ''time.ParseDuration'')),
      url_Parse = (\<lambda>s. Inl (ErrorString ''url.Parse'')),
      TextUnmarshaler = (\<lambda>t. None),
      Zero = (\<lambda>t. VOther)\<rparr>"

text \<open>An exported field with its name, type, \<open>env\<close> tag and \<open>envDefault\<close> tag.\<close>

definition tagged :: "string \<Rightarrow> gotype \<Rightarrow> string \<Rightarrow> string \<Rightarrow> sfield" where
  "tagged name t env dflt =
     \<lparr>Name = name, Type = t, Exported = True, Tag_env = env, Tag_envDefault = dflt,
      Tag_envExpand = [], Tag_envSeparator = []\<rparr>"

text \<open>The same field when its name is not exported.\<close>

definition unexported :: "sfield \<Rightarrow> sfield" where
  "unexported d = d\<lparr>Exported := False\<rparr>"

definition inner_struct :: gotype where
  "inner_struct = TNamed ''Inner'' TStruct"

section \<open>Lemmas\<close>

lemmas run_defs =
  get_def parseKeyForOption_def Split.simps tagged_def getOrWithPrefix_def LookupEnv_def
  ToLower_def getRequired_def example_lib_def RequiredNotSet_def OptionNotSupported_def
  IsNil_def CanSet_def set_go_def reflect_Set_def set_scalar_def url_URL_def
  ParseWithPrefix_def ParseWithFuncs_def ParseInt_def ParseUint_def ParseUint_digits_def
  digit_def NumError_def ParseBool_def

subsection \<open>Splitting and joining\<close>

lemma Index_Some_at: "Index s sep = Some i \<Longrightarrow> take (length sep) (drop i s) = sep"
proof (induction s arbitrary: i)
  case Nil
  then show ?case by (simp split: if_splits)
next
  case (Cons c cs)
  then show ?case by (auto split: if_splits)
qed

lemma Index_Some_first:
  "Index s sep = Some i \<Longrightarrow> j < i \<Longrightarrow> take (length sep) (drop j s) \<noteq> sep"
proof (induction s arbitrary: i j)
  case Nil
  then show ?case by (simp split: if_splits)
next
  case (Cons c cs)
  from Cons.prems have ne: "take (length sep) (c # cs) \<noteq> sep"
    by (auto split: if_splits)
  with Cons.prems obtain i' where i': "Index cs sep = Some i'" "i = Suc i'"
    by (auto split: if_splits)
  show ?case
  proof (cases j)
    case 0
    with ne show ?thesis by simp
  next
    case (Suc j')
    with Cons.prems i' have "j' < i'" by simp
    from Cons.IH [OF i'(1) this] Suc show ?thesis by simp
  qed
qed

lemma Index_NoneI:
  "\<forall>j\<le>length s. take (length sep) (drop j s) \<noteq> sep \<Longrightarrow> Index s sep = None"
proof (induction s)
  case Nil
  then show ?case by auto
next
  case (Cons c cs)
  from Cons.prems have "take (length sep) (drop 0 (c # cs)) \<noteq> sep" by blast
  then have ne: "take (length sep) (c # cs) \<noteq> sep" by simp
  have "\<forall>j\<le>length cs. take (length sep) (drop j cs) \<noteq> sep"
  proof (intro allI impI)
    fix j assume "j \<le> length cs"
    then have "Suc j \<le> length (c # cs)" by simp
    with Cons.prems have "take (length sep) (drop (Suc j) (c # cs)) \<noteq> sep" by blast
    then show "take (length sep) (drop j cs) \<noteq> sep" by simp
  qed
  with Cons.IH ne show ?case by simp
qed

text \<open>The part before the first occurrence of the separator does not contain it.\<close>

lemma Index_token_None:
  assumes "Index s sep = Some i" and "sep \<noteq> []"
  shows "Index (take i s) sep = None"
proof (rule Index_NoneI, intro allI impI)
  fix j assume j: "j \<le> length (take i s)"
  show "take (length sep) (drop j (take i s)) \<noteq> sep"
  proof
    assume eq: "take (length sep) (drop j (take i s)) = sep"
    then have "length (take (length sep) (drop j (take i s))) = length sep" by simp
    then have len: "length sep \<le> i - j" by simp
    with assms(2) have "j < i" by (cases sep) auto
    have "take (length sep) (drop j (take i s)) = take (length sep) (take (i - j) (drop j s))"
      by (simp add: drop_take)
    also have "\<dots> = take (length sep) (drop j s)" using len by (simp add: min_def)
    finally have "take (length sep) (drop j s) = sep" using eq by simp
    with Index_Some_first [OF assms(1) \<open>j < i\<close>] show False by simp
  qed
qed

lemma Split_not_Nil: "sep \<noteq> [] \<Longrightarrow> Split s sep \<noteq> []"
  by (subst Split.simps) (simp split: option.splits)

lemma Join_Cons: "xs \<noteq> [] \<Longrightarrow> Join (x # xs) sep = x @ sep @ Join xs sep"
  by (cases xs) simp_all

text \<open>Joining the substrings with the separator gives the string back: none is dropped.\<close>

lemma Join_Split: "sep \<noteq> [] \<Longrightarrow> Join (Split s sep) sep = s"
proof (induction s sep rule: Split.induct)
  case (1 s sep)
  show ?case
  proof (cases "Index s sep")
    case None
    with "1.prems" show ?thesis by (subst Split.simps) simp
  next
    case (Some i)
    have "drop i s = take (length sep) (drop i s) @ drop (length sep) (drop i s)"
      by (simp only: append_take_drop_id)
    then have "drop i s = sep @ drop (i + length sep) s"
      using Index_Some_at [OF Some] by (simp add: add.commute)
    moreover have "s = take i s @ drop i s" by simp
    ultimately have s: "s = take i s @ sep @ drop (i + length sep) s" by simp
    have "Join (Split s sep) sep = take i s @ sep @ Join (Split (drop (i + length sep) s) sep) sep"
      using "1.prems" Some Split_not_Nil [OF "1.prems"]
      by (subst Split.simps) (simp add: Join_Cons)
    also have "\<dots> = take i s @ sep @ drop (i + length sep) s"
      using "1.IH" [OF "1.prems" Some] "1.prems" by simp
    finally show ?thesis using s by simp
  qed
qed

text \<open>No substring contains the separator.\<close>

lemma Split_tokens: "sep \<noteq> [] \<Longrightarrow> t \<in> set (Split s sep) \<Longrightarrow> Index t sep = None"
proof (induction s sep rule: Split.induct)
  case (1 s sep)
  show ?case
  proof (cases "Index s sep")
    case None
    with "1.prems" show ?thesis by (subst (asm) Split.simps) simp
  next
    case (Some i)
    from "1.prems" Some have "t = take i s \<or> t \<in> set (Split (drop (i + length sep) s) sep)"
      by (subst (asm) Split.simps) simp
    then show ?thesis
    proof
      assume "t = take i s"
      with Index_token_None [OF Some "1.prems"(1)] show ?thesis by simp
    next
      assume "t \<in> set (Split (drop (i + length sep) s) sep)"
      with "1.IH" [OF "1.prems"(1) Some "1.prems"(1)] show ?thesis by simp
    qed
  qed
qed

subsection \<open>The resolver\<close>

text \<open>
  When every option is \<open>"required"\<close> or empty, the loop over the options ends with what
  \<open>getRequired\<close> returns if \<open>"required"\<close> is among them, and changes nothing otherwise.
\<close>

lemma get_opts_recognised:
  "\<forall>opt\<in>set opts. opt = [] \<or> opt = ''required'' \<Longrightarrow>
   get_opts L e key prefix opts (val, err) =
     (if ''required'' \<in> set opts then getRequired L e key prefix else (val, err))"
proof (induction opts arbitrary: val err)
  case Nil
  then show ?case by simp
next
  case (Cons opt opts)
  then show ?case
    by (cases "getRequired L e key prefix") auto
qed

lemma get_required:
  assumes "parseKeyForOption (Tag_env field) = (key, opts)"
    and "''required'' \<in> set opts"
    and "\<forall>opt\<in>set opts. opt = [] \<or> opt = ''required''"
  shows "get L e field prefix = getRequired L e key prefix"
  using assms by (simp add: get_def Let_def get_opts_recognised)

subsection \<open>The loop of the engine\<close>

text \<open>One turn of the loop is the visit of the field.\<close>

lemma doParse_loop_step:
  "doParse_loop L e prefix funcMap done (f # rest) errorList calls =
     (case visit_field L e prefix funcMap f of
        Abort err v cs \<Rightarrow> Return (Some err, done @ (fst f, v) # rest, calls @ cs)
      | Fatal p \<Rightarrow> Panic p
      | Next v msg cs \<Rightarrow>
          doParse_loop L e prefix funcMap (done @ [(fst f, v)]) rest
            (errorList @ (case msg of None \<Rightarrow> [] | Some m \<Rightarrow> [m])) (calls @ cs))"
  by (cases f)
    (simp add: visit_field_def is_nested_def split: result.splits prod.splits option.splits)

text \<open>
  Over a stretch of fields whose visits all go on, the loop visits each of them,
  keeps every message and every call in order, and arrives at the fields behind.
\<close>

lemma doParse_loop_continues:
  assumes "\<forall>f\<in>set pre. continues (visit_field L e prefix funcMap f)"
  shows "doParse_loop L e prefix funcMap done (pre @ rest) errorList calls =
         doParse_loop L e prefix funcMap
           (done @ map (\<lambda>f. after f (visit_field L e prefix funcMap f)) pre) rest
           (errorList @ List.map_filter (\<lambda>f. message (visit_field L e prefix funcMap f)) pre)
           (calls @ concat (map (\<lambda>f. hook_calls (visit_field L e prefix funcMap f)) pre))"
  using assms
proof (induction pre arbitrary: "done" errorList calls)
  case Nil
  then show ?case by (simp add: map_filter_simps)
next
  case (Cons f pre)
  from Cons.prems obtain v msg cs where v: "visit_field L e prefix funcMap f = Next v msg cs"
    by (cases "visit_field L e prefix funcMap f") auto
  from Cons.prems have rest: "\<forall>f\<in>set pre. continues (visit_field L e prefix funcMap f)"
    by simp
  show ?case
    by (cases msg) (simp_all add: doParse_loop_step v Cons.IH [OF rest] map_filter_simps)
qed

text \<open>Anything but a pointer to a struct is refused by the entry point.\<close>

lemma ParseWithPrefixFuncs_refuses:
  assumes "\<forall>ref. v \<noteq> VPtr (VStruct ref)"
  shows "ParseWithPrefixFuncs L e v prefix funcMap = Return (Some ErrNotAStructPtr, v, [])"
proof (cases v)
  case (VPtr x)
  with assms show ?thesis by (cases x) simp_all
qed simp_all

lemma visit_field_not_struct:
  assumes "Kind (Type d) = KPtr" "CanSet d" "\<forall>ref. x \<noteq> VStruct ref"
  shows "visit_field L e prefix funcMap (d, VPtr x) = Abort ErrNotAStructPtr (VPtr x) []"
proof -
  have "\<forall>ref. VPtr x \<noteq> VPtr (VStruct ref)" using assms(3) by simp
  then have "Parse L e (VPtr x) = Return (Some ErrNotAStructPtr, VPtr x, [])"
    using ParseWithPrefixFuncs_refuses by simp
  with assms(1,2) show ?thesis
    by (simp add: visit_field_def is_nested_def IsNil_def)
qed

text \<open>When the visit of a field lets the traversal go on, and what it leaves.\<close>

lemma visit_continues_iff:
  "continues (visit_field L e prefix funcMap (d, v)) \<longleftrightarrow>
     (if is_nested d v then (\<exists>v' cs. Parse L e v = Return (None, v', cs))
      else (case get L e d prefix of
              (value, Some err) \<Rightarrow> True
            | (value, None) \<Rightarrow>
                value = [] \<or> (\<exists>r. set_go L d v value funcMap = Return r)))"
  by (auto simp: visit_field_def split: result.splits prod.splits option.splits)

lemma visit_field_fails_resolution:
  "\<not> is_nested d v \<Longrightarrow> get L e d prefix = (value, Some err) \<Longrightarrow>
   visit_field L e prefix funcMap (d, v) = Next v (Some (Error err)) []"
  by (simp add: visit_field_def)

lemma visit_field_fails_conversion:
  "\<not> is_nested d v \<Longrightarrow> get L e d prefix = (value, None) \<Longrightarrow> value \<noteq> [] \<Longrightarrow>
   set_go L d v value funcMap = Return (Some err, v') \<Longrightarrow>
   visit_field L e prefix funcMap (d, v) = Next v' (Some (Error err)) []"
  by (simp add: visit_field_def)

lemma visit_field_converts:
  "\<not> is_nested d v \<Longrightarrow> get L e d prefix = (value, None) \<Longrightarrow> value \<noteq> [] \<Longrightarrow>
   set_go L d v value funcMap = Return (None, v') \<Longrightarrow>
   visit_field L e prefix funcMap (d, v) = Next v' None [(d, value)]"
  by (simp add: visit_field_def)

lemma visit_field_nested:
  "is_nested d v \<Longrightarrow> Parse L e v = Return (None, v', cs) \<Longrightarrow>
   visit_field L e prefix funcMap (d, v) = Next v' None cs"
  by (simp add: visit_field_def)

text \<open>
  The visit of a nested record depends neither on the prefix nor on the custom
  parsers of the call, and its failure ends the traversal with that error.
\<close>

lemma nested_visit_ignores_prefix_and_parsers:
  assumes "is_nested d v"
  shows "visit_field L e prefix funcMap (d, v) = visit_field L e [] Map.empty (d, v)"
  using assms by (simp add: visit_field_def)

lemma nested_failure_aborts:
  assumes "\<forall>f\<in>set pre. continues (visit_field L e prefix funcMap f)"
    and "is_nested d v"
    and "Parse L e v = Return (Some err, v', cs)"
  shows "doParse L e (pre @ (d, v) # post) prefix funcMap =
         Return (Some err,
                 map (\<lambda>f. after f (visit_field L e prefix funcMap f)) pre @ (d, v') # post,
                 concat (map (\<lambda>f. hook_calls (visit_field L e prefix funcMap f)) pre) @ cs)"
proof -
  have "visit_field L e prefix funcMap (d, v) = Abort err v' cs"
    using assms(2,3) by (simp add: visit_field_def)
  then show ?thesis
    using doParse_loop_continues [OF assms(1), of "[]" "(d, v) # post" "[]" "[]"]
    by (simp add: doParse_loop_step)
qed

subsection \<open>The loops of the sequence converters\<close>

lemma parse_loop_all:
  "list_all2 (\<lambda>t x. conv t = Inr x) data xs \<Longrightarrow> parse_loop conv data slice = Inr (slice @ xs)"
proof (induction data arbitrary: xs slice)
  case Nil
  then show ?case by simp
next
  case (Cons t data)
  then obtain x xs' where "xs = x # xs'" "conv t = Inr x"
    "list_all2 (\<lambda>t x. conv t = Inr x) data xs'"
    by (auto simp: list_all2_Cons1)
  with Cons.IH [of xs' "slice @ [x]"] show ?case by simp
qed

lemma parse_loop_first_failure:
  "list_all2 (\<lambda>t x. conv t = Inr x) ok xs \<Longrightarrow> conv t = Inl err \<Longrightarrow>
   parse_loop conv (ok @ t # rest) slice = Inl err"
proof (induction ok arbitrary: xs slice)
  case Nil
  then show ?case by simp
next
  case (Cons a ok)
  then obtain x xs' where "xs = x # xs'" "conv a = Inr x"
    "list_all2 (\<lambda>t x. conv t = Inr x) ok xs'"
    by (auto simp: list_all2_Cons1)
  with Cons.IH [of xs' "slice @ [x]"] Cons.prems(2) show ?case by simp
qed

text \<open>For a sequence type it knows by name, \<open>handleSlice\<close> is the loop around its converter.\<close>

lemma handleSlice_builtin_loop:
  assumes "slice_converter L (Type field) = Some conv"
  shows "handleSlice L field cur value separator =
         set_slice field cur
           (parse_loop conv (Split value (if separator = [] then '','' else separator)) [])"
proof -
  have strings: "parse_loop (\<lambda>v. Inr (VString v)) data [] = Inr (map VString data)" for data
    using parse_loop_all [of "\<lambda>v. Inr (VString v)" data "map VString data" "[]"]
    by (simp add: list_all2_map2 list.rel_refl)
  show ?thesis
    using assms
    by (auto simp: slice_converter_def handleSlice_def Let_def set_slice_def strings
        parseInts_def parseInt64s_def parseUint64s_def parseFloat32s_def parseFloat64s_def
        parseBools_def parseDurations_def parseUrls_def time_Duration_def url_URL_def
        split: if_splits)
qed

lemma unmarshal_loop_parse_loop:
  "unmarshal_loop tm z isPtr data slice = parse_loop (unmarshal_converter tm z isPtr) data slice"
proof (induction data arbitrary: slice)
  case Nil
  show ?case by simp
next
  case (Cons v data)
  obtain err x where r: "tm v z = (err, x)" by (cases "tm v z")
  show ?case
    by (cases err) (simp_all add: r unmarshal_converter_def Cons.IH split del: if_split)
qed

lemma Kind_KPtr_Elem: "Kind t = KPtr \<Longrightarrow> \<exists>u. Elem t = Some u"
  by (induction t) simp_all

lemma Kind_KSlice_Elem: "Kind t = KSlice \<Longrightarrow> \<exists>u. Elem t = Some u"
  by (induction t) simp_all

lemma slice_converter_None:
  "slice_converter L t = None \<Longrightarrow>
   t \<noteq> TSlice TString \<and> t \<noteq> TSlice TInt \<and> t \<noteq> TSlice TInt64 \<and> t \<noteq> TSlice TUint64 \<and>
   t \<noteq> TSlice TFloat32 \<and> t \<noteq> TSlice TFloat64 \<and> t \<noteq> TSlice TBool \<and>
   t \<noteq> TSlice time_Duration \<and> t \<noteq> TSlice url_URL"
  by (simp add: slice_converter_def split: if_splits)

text \<open>With a converter for its elements, \<open>handleSlice\<close> is the loop around that converter.\<close>

lemma handleSlice_loop:
  assumes "element_converter L (Type field) = Some conv"
  shows "handleSlice L field cur value separator =
         set_slice field cur
           (parse_loop conv (Split value (if separator = [] then '','' else separator)) [])"
proof (cases "slice_converter L (Type field)")
  case (Some c)
  with assms have "c = conv" by (simp add: element_converter_def)
  with Some show ?thesis using handleSlice_builtin_loop by simp
next
  case None
  note nb = slice_converter_None [OF None]
  from assms None obtain elemType base tm where
    el: "Elem (Type field) = Some elemType"
    and b: "(if Kind elemType = KPtr then Elem elemType else Some elemType) = Some base"
    and tm: "TextUnmarshaler L (TPtr base) = Some tm"
    and conv: "conv = unmarshal_converter tm (Zero L base) (Kind elemType = KPtr)"
    by (auto simp: element_converter_def split: option.splits)
  have "handleSlice L field cur value separator =
      parseTextUnmarshalers L field cur
        (Split value (if separator = [] then '','' else separator))"
    using nb el b tm by (simp add: handleSlice_def Let_def)
  also have "\<dots> = set_slice field cur
      (parse_loop conv (Split value (if separator = [] then '','' else separator)) [])"
    using el b tm conv
    by (simp add: parseTextUnmarshalers_def unmarshal_loop_parse_loop set_slice_def)
  finally show ?thesis .
qed

text \<open>Without one, a field of kind slice fails before any substring is converted.\<close>

lemma handleSlice_unsupported:
  assumes "element_converter L (Type field) = None" and "Kind (Type field) = KSlice"
  shows "handleSlice L field cur value separator = Return (Some ErrUnsupportedSliceType, cur)"
proof -
  from assms(1) have None: "slice_converter L (Type field) = None"
    by (simp add: element_converter_def split: option.splits)
  note nb = slice_converter_None [OF None]
  from Kind_KSlice_Elem [OF assms(2)] obtain elemType where
    el: "Elem (Type field) = Some elemType" by blast
  obtain base where
    b: "(if Kind elemType = KPtr then Elem elemType else Some elemType) = Some base"
    using Kind_KPtr_Elem [of elemType] by (cases "Kind elemType = KPtr") auto
  from assms(1) None el b have "TextUnmarshaler L (TPtr base) = None"
    by (simp add: element_converter_def split: option.splits)
  with nb el b show ?thesis by (simp add: handleSlice_def Let_def)
qed

text \<open>
  The converter of a sequence type known by name is the converter that \<open>set\<close> applies
  to a field of the element type (for \<open>url.URL\<close>, \<open>set\<close> wraps the error in a message of
  its own).
\<close>

lemma sequence_converter_is_scalar_converter:
  assumes "slice_converter L (TSlice (Type d)) = Some conv"
    and "Type d \<noteq> url_URL"
  shows "set_go L d cur value Map.empty = set_scalar d cur (conv value)"
  using assms
  by (auto simp: slice_converter_def set_go_def set_scalar_def time_Duration_def url_URL_def
      split: if_splits sum.splits)

lemma ParseInt_123:
  "ParseInt L ''1'' 32 = Inr 1" "ParseInt L ''2'' 32 = Inr 2" "ParseInt L ''3'' 32 = Inr 3"
  by (simp_all add: ParseInt_def ParseUint_digits_def digit_def)

section \<open>The claims\<close>

text \<open>
  Claim C1.  What the code does with a nested record when the parse has a prefix and
  custom parsers: \<open>doParse\<close> hands the pointer to \<open>Parse\<close>, so the nested record is
  parsed with the empty prefix and without the custom parsers.  With the prefix \<open>P_\<close>
  and only \<open>P_X\<close> set, the field \<open>X\<close> (tag \<open>env:"X"\<close>) of a record behind a non-nil
  pointer field is left as it was, while the same record parsed directly with the
  prefix receives the value of \<open>P_X\<close>; and with a parser registered for \<open>string\<close>, the
  nested field receives the raw value of \<open>X\<close>, not what the parser returns.
\<close>

theorem nested_parse_drops_prefix_and_parsers:
  "ParseWithPrefix example_lib [''P_X'' \<mapsto> ''v'']
     (VPtr (VStruct [(tagged ''Inner'' (TPtr inner_struct) [] [],
                      VPtr (VStruct [(tagged ''X'' TString ''X'' [], VString [])]))])) ''P_'' =
   Return (None,
     VPtr (VStruct [(tagged ''Inner'' (TPtr inner_struct) [] [],
                     VPtr (VStruct [(tagged ''X'' TString ''X'' [], VString [])]))]), []) \<and>
   ParseWithPrefix example_lib [''P_X'' \<mapsto> ''v'']
     (VPtr (VStruct [(tagged ''X'' TString ''X'' [], VString [])])) ''P_'' =
   Return (None, VPtr (VStruct [(tagged ''X'' TString ''X'' [], VString ''v'')]),
     [(tagged ''X'' TString ''X'' [], ''v'')]) \<and>
   ParseWithFuncs example_lib [''X'' \<mapsto> ''v'']
     (VPtr (VStruct [(tagged ''Inner'' (TPtr inner_struct) [] [],
                      VPtr (VStruct [(tagged ''X'' TString ''X'' [], VString [])]))]))
     [TString \<mapsto> (\<lambda>s. Inr (VString ''custom''))] =
   Return (None,
     VPtr (VStruct [(tagged ''Inner'' (TPtr inner_struct) [] [],
                     VPtr (VStruct [(tagged ''X'' TString ''X'' [], VString ''v'')]))]),
     [(tagged ''X'' TString ''X'' [], ''v'')]) \<and>
   ParseWithFuncs example_lib [''X'' \<mapsto> ''v'']
     (VPtr (VStruct [(tagged ''X'' TString ''X'' [], VString [])]))
     [TString \<mapsto> (\<lambda>s. Inr (VString ''custom''))] =
   Return (None, VPtr (VStruct [(tagged ''X'' TString ''X'' [], VString ''custom'')]),
     [(tagged ''X'' TString ''X'' [], ''v'')])"
  by (simp add: run_defs inner_struct_def)

text \<open>
  Claim C2, amended.  For every record none of whose fields aborts the traversal (no
  nested record fails, and no call of \<open>set\<close> panics, as the assignment to a field that
  is not exported does), a parse visits every field in declaration order and never
  stops at the error of a field: the record holds afterwards, field by field, what the
  visits left; the hook is called for the assigned fields in order; and the outcome
  is the aggregate of the recorded messages, in declaration order and joined by
  \<open>". "\<close>, one message for each field that recorded one, or success when there is
  none.  For a field that the engine resolves, the message recorded is that of the
  error of \<open>get\<close> or of \<open>set\<close>, and when both return without error for a resolved
  string that is not empty, the field holds the value that \<open>set\<close> returned and the hook
  is called with the field and the string.
\<close>

theorem doParse_aggregates:
  assumes "\<forall>f\<in>set ref. continues (visit_field L e prefix funcMap f)"
  shows "doParse L e ref prefix funcMap =
           Return (aggregate (List.map_filter (\<lambda>f. message (visit_field L e prefix funcMap f)) ref),
                   map (\<lambda>f. after f (visit_field L e prefix funcMap f)) ref,
                   concat (map (\<lambda>f. hook_calls (visit_field L e prefix funcMap f)) ref)) \<and>
         ParseWithPrefixFuncs L e (VPtr (VStruct ref)) prefix funcMap =
           Return (aggregate (List.map_filter (\<lambda>f. message (visit_field L e prefix funcMap f)) ref),
                   VPtr (VStruct (map (\<lambda>f. after f (visit_field L e prefix funcMap f)) ref)),
                   concat (map (\<lambda>f. hook_calls (visit_field L e prefix funcMap f)) ref)) \<and>
         length (List.map_filter (\<lambda>f. message (visit_field L e prefix funcMap f)) ref) =
           length (filter (\<lambda>f. message (visit_field L e prefix funcMap f) \<noteq> None) ref) \<and>
         (\<forall>d v value err.
            \<not> is_nested d v \<and> get L e d prefix = (value, Some err) \<longrightarrow>
            message (visit_field L e prefix funcMap (d, v)) = Some (Error err) \<and>
            after (d, v) (visit_field L e prefix funcMap (d, v)) = (d, v)) \<and>
         (\<forall>d v value err v'.
            \<not> is_nested d v \<and> get L e d prefix = (value, None) \<and> value \<noteq> [] \<and>
            set_go L d v value funcMap = Return (Some err, v') \<longrightarrow>
            message (visit_field L e prefix funcMap (d, v)) = Some (Error err)) \<and>
         (\<forall>d v value v'.
            \<not> is_nested d v \<and> get L e d prefix = (value, None) \<and> value \<noteq> [] \<and>
            set_go L d v value funcMap = Return (None, v') \<longrightarrow>
            message (visit_field L e prefix funcMap (d, v)) = None \<and>
            after (d, v) (visit_field L e prefix funcMap (d, v)) = (d, v') \<and>
            hook_calls (visit_field L e prefix funcMap (d, v)) = [(d, value)])"
proof -
  have "doParse L e ref prefix funcMap =
      Return (aggregate (List.map_filter (\<lambda>f. message (visit_field L e prefix funcMap f)) ref),
              map (\<lambda>f. after f (visit_field L e prefix funcMap f)) ref,
              concat (map (\<lambda>f. hook_calls (visit_field L e prefix funcMap f)) ref))"
    using doParse_loop_continues [OF assms, of "[]" "[]" "[]" "[]"]
    by (simp add: aggregate_def)
  moreover have "length (List.map_filter g ref) = length (filter (\<lambda>f. g f \<noteq> None) ref)"
    for g :: "sfield \<times> gvalue \<Rightarrow> string option"
    by (simp add: map_filter_def)
  ultimately show ?thesis
    by (simp add: visit_field_fails_resolution visit_field_fails_conversion
        visit_field_converts)
qed

theorem doParse_aggregates_witness:
  "doParse example_lib [''A'' \<mapsto> ''x'', ''B'' \<mapsto> ''hello'']
     [(tagged ''A'' TInt ''A'' [], VInt 0),
      (tagged ''B'' TString ''B'' [], VString []),
      (tagged ''C'' TBool ''C,required'' [], VBool False),
      (tagged ''D'' TInt ''D'' ''7'', VInt 0)] [] Map.empty =
   Return (Some (ErrorString
       (''strconv.ParseInt: parsing '' @ [CHR 0x22] @ ''x'' @ [CHR 0x22] @ '': invalid syntax. '' @
        ''required environment variable '' @ [CHR 0x22] @ ''C'' @ [CHR 0x22] @ '' is not set'')),
     [(tagged ''A'' TInt ''A'' [], VInt 0),
      (tagged ''B'' TString ''B'' [], VString ''hello''),
      (tagged ''C'' TBool ''C,required'' [], VBool False),
      (tagged ''D'' TInt ''D'' ''7'', VInt 7)],
     [(tagged ''B'' TString ''B'' [], ''hello''), (tagged ''D'' TInt ''D'' ''7'', ''7'')])"
proof -
  let ?e = "[''A'' \<mapsto> ''x'', ''B'' \<mapsto> ''hello'']"
  let ?a = "(tagged ''A'' TInt ''A'' [], VInt 0)"
  let ?b = "(tagged ''B'' TString ''B'' [], VString [])"
  let ?c = "(tagged ''C'' TBool ''C,required'' [], VBool False)"
  let ?d = "(tagged ''D'' TInt ''D'' ''7'', VInt 0)"
  have a: "visit_field example_lib ?e [] Map.empty ?a =
      Next (VInt 0)
        (Some (''strconv.ParseInt: parsing '' @ [CHR 0x22] @ ''x'' @ [CHR 0x22] @
               '': invalid syntax'')) []"
    by (simp add: visit_field_def is_nested_def run_defs)
  have b: "visit_field example_lib ?e [] Map.empty ?b =
      Next (VString ''hello'') None [(tagged ''B'' TString ''B'' [], ''hello'')]"
    by (simp add: visit_field_def is_nested_def run_defs)
  have c: "visit_field example_lib ?e [] Map.empty ?c =
      Next (VBool False)
        (Some (''required environment variable '' @ [CHR 0x22] @ ''C'' @ [CHR 0x22] @
               '' is not set'')) []"
    by (simp add: visit_field_def is_nested_def run_defs)
  have d: "visit_field example_lib ?e [] Map.empty ?d =
      Next (VInt 7) None [(tagged ''D'' TInt ''D'' ''7'', ''7'')]"
    by (simp add: visit_field_def is_nested_def run_defs)
  have all: "\<forall>f\<in>set [?a, ?b, ?c, ?d]. continues (visit_field example_lib ?e [] Map.empty f)"
    by (simp add: a b c d)
  show ?thesis
    using doParse_aggregates [OF all] a b c d
    by (simp add: aggregate_def map_filter_simps)
qed

text \<open>
  The claim as it was stated fails on a record with the field \<open>A int\<close> (tag
  \<open>env:"A"\<close>, \<open>A\<close> set to \<open>x\<close>) and the field \<open>name string\<close>, not exported (tag
  \<open>env:"NAME"\<close>, \<open>NAME\<close> set to \<open>bob\<close>): no record is nested and the input is a pointer
  to a struct, the first field fails to convert and the second resolves to \<open>bob\<close>,
  but \<open>SetString\<close> panics on the field that is not exported, so the parse returns
  neither the aggregate error nor the assigned field.
\<close>

theorem doParse_aggregates_counterexample:
  "get example_lib [''A'' \<mapsto> ''x'', ''NAME'' \<mapsto> ''bob'']
     (unexported (tagged ''name'' TString ''NAME'' [])) [] = (''bob'', None) \<and>
   set_go example_lib (tagged ''A'' TInt ''A'' []) (VInt 0) ''x'' Map.empty =
     Return (Some (ErrorString (''strconv.ParseInt: parsing '' @ [CHR 0x22] @ ''x'' @
                                [CHR 0x22] @ '': invalid syntax'')), VInt 0) \<and>
   set_go example_lib (unexported (tagged ''name'' TString ''NAME'' [])) (VString [])
     ''bob'' Map.empty = Panic PanicReflect \<and>
   doParse example_lib [''A'' \<mapsto> ''x'', ''NAME'' \<mapsto> ''bob'']
     [(tagged ''A'' TInt ''A'' [], VInt 0),
      (unexported (tagged ''name'' TString ''NAME'' []), VString [])] [] Map.empty =
     Panic PanicReflect \<and>
   Parse example_lib [''A'' \<mapsto> ''x'', ''NAME'' \<mapsto> ''bob'']
     (VPtr (VStruct
        [(tagged ''A'' TInt ''A'' [], VInt 0),
         (unexported (tagged ''name'' TString ''NAME'' []), VString [])])) =
     Panic PanicReflect"
  by (simp add: run_defs unexported_def)

text \<open>
  Claim C3, amended.  For every field whose option list contains \<open>"required"\<close> and
  otherwise only \<open>"required"\<close> or empty tokens, and whose effective key (prefix and
  declared key) is absent from the environment, resolution fails with the
  \<open>RequiredNotSet\<close> error citing the declared key, whatever default the field declares.
\<close>

theorem required_unset_fails:
  assumes "parseKeyForOption (Tag_env field) = (key, opts)"
    and "''required'' \<in> set opts"
    and "\<forall>opt\<in>set opts. opt = [] \<or> opt = ''required''"
    and "LookupEnv e (prefix @ key) = None"
  shows "get L e field prefix = ([], Some (RequiredNotSet L key))"
  using get_required [OF assms(1,2,3)] assms(4) by (simp add: getRequired_def)

theorem required_unset_fails_witness:
  "parseKeyForOption (Tag_env (tagged ''Port'' TInt ''PORT,required'' ''8080'')) =
     (''PORT'', [''required'']) \<and>
   LookupEnv [''HOME'' \<mapsto> ''/root''] (''APP_'' @ ''PORT'') = None \<and>
   get example_lib [''HOME'' \<mapsto> ''/root''] (tagged ''Port'' TInt ''PORT,required'' ''8080'')
     ''APP_'' = ([], Some (RequiredNotSet example_lib ''PORT''))"
proof -
  have k: "parseKeyForOption (Tag_env (tagged ''Port'' TInt ''PORT,required'' ''8080'')) =
     (''PORT'', [''required''])"
    by (simp add: run_defs)
  have u: "LookupEnv [''HOME'' \<mapsto> ''/root''] (''APP_'' @ ''PORT'') = None"
    by (simp add: LookupEnv_def)
  show ?thesis
    using required_unset_fails [OF k _ _ u, of example_lib] k u
    by simp
qed

text \<open>
  The claim as it was stated fails on the tag \<open>env:"PORT,required,foo"\<close> with \<open>PORT\<close>
  unset: the option \<open>foo\<close> comes after \<open>required\<close>, and the error of the field is the one
  about the option, not \<open>RequiredNotSet\<close>.
\<close>

theorem required_unset_counterexample:
  "parseKeyForOption (Tag_env (tagged ''Port'' TInt ''PORT,required,foo'' ''8080'')) =
     (''PORT'', [''required'', ''foo'']) \<and>
   LookupEnv Map.empty ([] @ ''PORT'') = None \<and>
   get example_lib Map.empty (tagged ''Port'' TInt ''PORT,required,foo'' ''8080'') [] =
     ([], Some (OptionNotSupported example_lib ''foo'')) \<and>
   OptionNotSupported example_lib ''foo'' \<noteq> RequiredNotSet example_lib ''PORT''"
  by (simp add: run_defs)

text \<open>
  Claim C4, amended.  For every record with a non-nil settable pointer field whose
  referent is not a struct, such that the visit of every earlier field lets the
  traversal go on (no earlier nested record fails, nothing panics), the parse returns
  the error \<open>ErrNotAStructPtr\<close> itself, whatever messages the earlier fields recorded;
  the earlier fields are as their visits left them, and the pointer field and every
  later field are untouched.
\<close>

theorem pointer_to_non_struct_aborts:
  assumes "\<forall>f\<in>set pre. continues (visit_field L e prefix funcMap f)"
    and "Kind (Type d) = KPtr" and "CanSet d" and "\<forall>ref. x \<noteq> VStruct ref"
  shows "ParseWithPrefixFuncs L e (VPtr (VStruct (pre @ (d, VPtr x) # post))) prefix funcMap =
         Return (Some ErrNotAStructPtr,
                 VPtr (VStruct (map (\<lambda>f. after f (visit_field L e prefix funcMap f)) pre @
                                (d, VPtr x) # post)),
                 concat (map (\<lambda>f. hook_calls (visit_field L e prefix funcMap f)) pre))"
  using doParse_loop_continues [OF assms(1), of "[]" "(d, VPtr x) # post" "[]" "[]"]
    visit_field_not_struct [OF assms(2,3,4), of L e prefix funcMap]
  by (simp add: doParse_loop_step)

theorem pointer_to_non_struct_aborts_witness:
  "ParseWithPrefixFuncs example_lib [''C'' \<mapsto> ''c'']
     (VPtr (VStruct
        [(tagged ''A'' TString ''A,required'' [], VString []),
         (tagged ''B'' (TPtr TInt) [] [], VPtr (VInt 7)),
         (tagged ''C'' TString ''C'' [], VString [])])) [] Map.empty =
   Return (Some ErrNotAStructPtr,
     VPtr (VStruct
        [(tagged ''A'' TString ''A,required'' [], VString []),
         (tagged ''B'' (TPtr TInt) [] [], VPtr (VInt 7)),
         (tagged ''C'' TString ''C'' [], VString [])]), [])"
proof -
  let ?a = "(tagged ''A'' TString ''A,required'' [], VString [])"
  let ?b = "tagged ''B'' (TPtr TInt) [] []"
  let ?e = "[''C'' \<mapsto> ''c'']"
  have a: "visit_field example_lib ?e [] Map.empty ?a =
      Next (VString [])
        (Some (''required environment variable '' @ [CHR 0x22] @ ''A'' @ [CHR 0x22] @
               '' is not set'')) []"
    by (simp add: visit_field_def is_nested_def run_defs)
  then have pre: "\<forall>f\<in>set [?a]. continues (visit_field example_lib ?e [] Map.empty f)"
    by simp
  have k: "Kind (Type ?b) = KPtr" by (simp add: tagged_def)
  have s: "CanSet ?b" by (simp add: tagged_def CanSet_def)
  have x: "\<forall>ref. VInt 7 \<noteq> VStruct ref" by simp
  show ?thesis
    using pointer_to_non_struct_aborts [OF pre k s x,
        of "[(tagged ''C'' TString ''C'' [], VString [])]"] a
    by simp
qed

text \<open>
  The claim as it was stated fails on a record whose field \<open>A\<close> points to a record with
  a required field that is not set and whose field \<open>B\<close> is a non-nil pointer to an
  integer: the nested parse of \<open>A\<close> fails first, and the parse returns that error.
\<close>

theorem pointer_to_non_struct_counterexample:
  "Parse example_lib Map.empty
     (VPtr (VStruct
        [(tagged ''A'' (TPtr inner_struct) [] [],
          VPtr (VStruct [(tagged ''X'' TString ''X,required'' [], VString [])])),
         (tagged ''B'' (TPtr TInt) [] [], VPtr (VInt 7))])) =
   Return (Some (ErrorString (''required environment variable '' @ [CHR 0x22] @ ''X'' @
                              [CHR 0x22] @ '' is not set'')),
     VPtr (VStruct
        [(tagged ''A'' (TPtr inner_struct) [] [],
          VPtr (VStruct [(tagged ''X'' TString ''X,required'' [], VString [])])),
         (tagged ''B'' (TPtr TInt) [] [], VPtr (VInt 7))]), [])"
  by (simp add: run_defs inner_struct_def)

text \<open>
  Claim C5.  For every input that is not a pointer to a struct (a value that is no
  pointer, a nil pointer, a pointer to anything else), each of the four entry points
  returns \<open>ErrNotAStructPtr\<close> with the input as it was and without a call to the hook,
  in every environment and with every library: nothing is resolved, converted or
  assigned, and the outcome does not depend on the environment.
\<close>

theorem entry_point_refuses:
  assumes "\<forall>ref. v \<noteq> VPtr (VStruct ref)"
  shows "ParseWithPrefixFuncs L e v prefix funcMap = Return (Some ErrNotAStructPtr, v, []) \<and>
         ParseWithPrefix L e v prefix = Return (Some ErrNotAStructPtr, v, []) \<and>
         ParseWithFuncs L e v funcMap = Return (Some ErrNotAStructPtr, v, []) \<and>
         Parse L e v = Return (Some ErrNotAStructPtr, v, []) \<and>
         ParseWithPrefixFuncs L e v prefix funcMap = ParseWithPrefixFuncs L e' v prefix funcMap"
  using ParseWithPrefixFuncs_refuses [OF assms]
  by (simp add: ParseWithPrefix_def ParseWithFuncs_def)

theorem entry_point_refuses_witness:
  "Parse example_lib [''A'' \<mapsto> ''x''] (VStruct [(tagged ''A'' TString ''A'' [], VString [])]) =
     Return (Some ErrNotAStructPtr, VStruct [(tagged ''A'' TString ''A'' [], VString [])], []) \<and>
   ParseWithPrefix example_lib [''A'' \<mapsto> ''x''] (VPtr (VInt 3)) ''P_'' =
     Return (Some ErrNotAStructPtr, VPtr (VInt 3), []) \<and>
   ParseWithFuncs example_lib [''A'' \<mapsto> ''x''] VNil Map.empty =
     Return (Some ErrNotAStructPtr, VNil, [])"
  using entry_point_refuses [of "VStruct [(tagged ''A'' TString ''A'' [], VString [])]"
      example_lib "[''A'' \<mapsto> ''x'']" "[]" Map.empty Map.empty]
    entry_point_refuses [of "VPtr (VInt 3)" example_lib "[''A'' \<mapsto> ''x'']" "''P_''" Map.empty
      Map.empty]
    entry_point_refuses [of "VNil" example_lib "[''A'' \<mapsto> ''x'']" "[]" Map.empty Map.empty]
  by simp

text \<open>
  Claim C6.  What the code does with an unrecognised option that is followed by
  another option: the later option assigns the error anew.  With the tag
  \<open>env:"PORT,foo,required"\<close> and \<open>PORT\<close> set, resolution returns the value and no error,
  although \<open>foo\<close> is not a supported option; with \<open>PORT\<close> unset the error is
  \<open>RequiredNotSet\<close>; and with \<open>env:"PORT,foo,bar"\<close> the error names \<open>bar\<close> only.
\<close>

theorem later_option_hides_unknown_option:
  "parseKeyForOption (Tag_env (tagged ''Port'' TInt ''PORT,foo,required'' [])) =
     (''PORT'', [''foo'', ''required'']) \<and>
   get example_lib [''PORT'' \<mapsto> ''8080''] (tagged ''Port'' TInt ''PORT,foo,required'' []) [] =
     (''8080'', None) \<and>
   get example_lib Map.empty (tagged ''Port'' TInt ''PORT,foo,required'' []) [] =
     ([], Some (RequiredNotSet example_lib ''PORT'')) \<and>
   get example_lib Map.empty (tagged ''Port'' TInt ''PORT,foo,bar'' []) [] =
     ([], Some (OptionNotSupported example_lib ''bar''))"
  by (simp add: run_defs)

text \<open>
  Claim C7, amended.  For every field of kind slice, conversion splits the raw string
  on the separator of the field (a comma when none is declared): joining the
  substrings with the separator gives the raw string back, so empty substrings are
  kept, and no substring contains the separator.  When the type is one of the
  sequence types that \<open>handleSlice\<close> knows by name (\<open>[]string\<close>, \<open>[]int\<close>, \<open>[]int64\<close>,
  \<open>[]uint64\<close>, \<open>[]float32\<close>, \<open>[]float64\<close>, \<open>[]bool\<close>, \<open>[]time.Duration\<close>,
  \<open>[]url.URL\<close>) or the element type is a text unmarshaler, each substring is converted
  with the converter of the element, in order; when all convert, a settable field is
  assigned the sequence of the converted elements in order; at the first substring
  that does not convert, the field fails with that error and keeps its value.  Every
  other field of kind slice fails with \<open>ErrUnsupportedSliceType\<close>.
\<close>

theorem handleSlice_converts_elements:
  assumes "Kind (Type field) = KSlice"
    and "sep = (if separator = [] then '','' else separator)"
  shows "Join (Split value sep) sep = value \<and>
         (\<forall>t\<in>set (Split value sep). Index t sep = None) \<and>
         (\<forall>conv xs.
            element_converter L (Type field) = Some conv \<and>
            list_all2 (\<lambda>t x. conv t = Inr x) (Split value sep) xs \<and> CanSet field \<longrightarrow>
            handleSlice L field cur value separator = Return (None, VSlice xs)) \<and>
         (\<forall>conv ok t rest xs err.
            element_converter L (Type field) = Some conv \<and>
            Split value sep = ok @ t # rest \<and> list_all2 (\<lambda>t x. conv t = Inr x) ok xs \<and>
            conv t = Inl err \<longrightarrow>
            handleSlice L field cur value separator = Return (Some err, cur)) \<and>
         (element_converter L (Type field) = None \<longrightarrow>
            handleSlice L field cur value separator = Return (Some ErrUnsupportedSliceType, cur))"
proof -
  have ne: "sep \<noteq> []" using assms(2) by simp
  have loop: "handleSlice L field cur value separator =
      set_slice field cur (parse_loop conv (Split value sep) [])"
    if "element_converter L (Type field) = Some conv" for conv
    using handleSlice_loop [OF that] assms(2) by simp
  have "Join (Split value sep) sep = value" using ne by (rule Join_Split)
  moreover have "\<forall>t\<in>set (Split value sep). Index t sep = None"
    using Split_tokens [OF ne] by blast
  moreover have "\<forall>conv xs.
      element_converter L (Type field) = Some conv \<and>
      list_all2 (\<lambda>t x. conv t = Inr x) (Split value sep) xs \<and> CanSet field \<longrightarrow>
      handleSlice L field cur value separator = Return (None, VSlice xs)"
  proof (intro allI impI)
    fix conv xs
    assume a: "element_converter L (Type field) = Some conv \<and>
      list_all2 (\<lambda>t x. conv t = Inr x) (Split value sep) xs \<and> CanSet field"
    then have "parse_loop conv (Split value sep) [] = Inr xs"
      using parse_loop_all [of conv "Split value sep" xs "[]"] by simp
    with a show "handleSlice L field cur value separator = Return (None, VSlice xs)"
      by (simp add: loop set_slice_def reflect_Set_def)
  qed
  moreover have "\<forall>conv ok t rest xs err.
      element_converter L (Type field) = Some conv \<and>
      Split value sep = ok @ t # rest \<and> list_all2 (\<lambda>t x. conv t = Inr x) ok xs \<and>
      conv t = Inl err \<longrightarrow>
      handleSlice L field cur value separator = Return (Some err, cur)"
  proof (intro allI impI)
    fix conv ok t rest xs err
    assume a: "element_converter L (Type field) = Some conv \<and>
      Split value sep = ok @ t # rest \<and> list_all2 (\<lambda>t x. conv t = Inr x) ok xs \<and>
      conv t = Inl err"
    then have "parse_loop conv (Split value sep) [] = Inl err"
      using parse_loop_first_failure [of conv ok xs t err rest "[]"] by simp
    with a show "handleSlice L field cur value separator = Return (Some err, cur)"
      by (simp add: loop set_slice_def)
  qed
  moreover have "element_converter L (Type field) = None \<longrightarrow>
      handleSlice L field cur value separator = Return (Some ErrUnsupportedSliceType, cur)"
    using handleSlice_unsupported [OF _ assms(1)] by blast
  ultimately show ?thesis by blast
qed

text \<open>
  The two examples of the claim, \<open>"1,2,3"\<close> with the default separator and \<open>"1;2;3"\<close>
  with the separator \<open>";"\<close>, and an empty substring that fails the field.
\<close>

theorem handleSlice_converts_elements_witness:
  "handleSlice example_lib (tagged ''Numbers'' (TSlice TInt) ''NUMBERS'' []) (VSlice [])
     ''1,2,3'' [] = Return (None, VSlice [VInt 1, VInt 2, VInt 3]) \<and>
   handleSlice example_lib (tagged ''Numbers'' (TSlice TInt) ''NUMBERS'' []) (VSlice [])
     ''1;2;3'' '';'' = Return (None, VSlice [VInt 1, VInt 2, VInt 3]) \<and>
   handleSlice example_lib (tagged ''Numbers'' (TSlice TInt) ''NUMBERS'' []) (VSlice [])
     ''1,,x'' [] =
     Return (Some (ErrorString (''strconv.ParseInt: parsing '' @ [CHR 0x22, CHR 0x22] @
                                '': invalid syntax'')), VSlice [])"
proof -
  let ?f = "tagged ''Numbers'' (TSlice TInt) ''NUMBERS'' []"
  let ?conv = "\<lambda>v. map_sum id VInt (ParseInt example_lib v 32)"
  have k: "Kind (Type ?f) = KSlice" by (simp add: tagged_def)
  have c: "element_converter example_lib (Type ?f) = Some ?conv"
    by (simp add: element_converter_def slice_converter_def tagged_def)
  have s1: "Split ''1,2,3'' '','' = [''1'', ''2'', ''3'']" by (simp add: Split.simps)
  have s2: "Split ''1;2;3'' '';'' = [''1'', ''2'', ''3'']" by (simp add: Split.simps)
  have s3: "Split ''1,,x'' '','' = [''1''] @ [] # [''x'']" by (simp add: Split.simps)
  have all: "list_all2 (\<lambda>t x. ?conv t = Inr x) [''1'', ''2'', ''3''] [VInt 1, VInt 2, VInt 3]"
    by (simp add: ParseInt_123)
  have one: "list_all2 (\<lambda>t x. ?conv t = Inr x) [''1''] [VInt 1]"
    by (simp add: ParseInt_123)
  have bad: "?conv [] = Inl (ErrorString (''strconv.ParseInt: parsing '' @
      [CHR 0x22, CHR 0x22] @ '': invalid syntax''))"
    by (simp add: ParseInt_def NumError_def example_lib_def)
  have set: "CanSet ?f" by (simp add: CanSet_def tagged_def)
  have r1: "handleSlice example_lib ?f (VSlice []) ''1,2,3'' [] =
      Return (None, VSlice [VInt 1, VInt 2, VInt 3])"
    using handleSlice_converts_elements [OF k refl, of "''1,2,3''" "[]" example_lib "VSlice []"]
      c s1 all set by (simp del: append.simps)
  have r2: "handleSlice example_lib ?f (VSlice []) ''1;2;3'' '';'' =
      Return (None, VSlice [VInt 1, VInt 2, VInt 3])"
    using handleSlice_converts_elements [OF k refl, of "''1;2;3''" "'';''" example_lib "VSlice []"]
      c s2 all set by (simp del: append.simps)
  have r3: "handleSlice example_lib ?f (VSlice []) ''1,,x'' [] =
      Return (Some (ErrorString (''strconv.ParseInt: parsing '' @ [CHR 0x22, CHR 0x22] @
                                '': invalid syntax'')), VSlice [])"
    using handleSlice_converts_elements [OF k refl, of "''1,,x''" "[]" example_lib "VSlice []"]
      c s3 one bad by (simp del: append.simps) blast
  from r1 r2 r3 show ?thesis by blast
qed

text \<open>
  The claim as it was stated fails on a field of type \<open>[]uint\<close>: a field of type \<open>uint\<close>
  is converted (here from \<open>"1"\<close>), but the sequence type is not among those that
  \<open>handleSlice\<close> knows and \<open>*uint\<close> is no text unmarshaler, so the field fails with
  \<open>ErrUnsupportedSliceType\<close>.
\<close>

theorem handleSlice_counterexample:
  "Type (tagged ''Ports'' (TSlice TUint) ''PORTS'' []) = TSlice TUint \<and>
   set_go example_lib (tagged ''Port'' TUint ''PORT'' []) (VUint 0) ''1'' Map.empty =
     Return (None, VUint 1) \<and>
   handleSlice example_lib (tagged ''Ports'' (TSlice TUint) ''PORTS'' []) (VSlice [])
     ''1,2,3'' [] = Return (Some ErrUnsupportedSliceType, VSlice [])"
  by (simp add: tagged_def set_go_def url_URL_def set_scalar_def ParseUint_def
      ParseUint_digits_def digit_def reflect_Set_def CanSet_def handleSlice_def
      time_Duration_def example_lib_def)

text \<open>
  Claim C8, amended.  For every field whose option list contains \<open>"required"\<close> and
  otherwise only \<open>"required"\<close> or empty tokens, and whose effective key is set to the
  empty string, resolution returns the empty string and no error: the empty value
  satisfies \<open>required\<close>.  When the engine resolves the field (it is not a non-nil
  settable pointer, which is handed to \<open>Parse\<close> instead), the visit records no error
  and leaves the field as it was.
\<close>

theorem required_empty_succeeds:
  assumes "parseKeyForOption (Tag_env field) = (key, opts)"
    and "''required'' \<in> set opts"
    and "\<forall>opt\<in>set opts. opt = [] \<or> opt = ''required''"
    and "LookupEnv e (prefix @ key) = Some []"
  shows "get L e field prefix = ([], None) \<and>
         (\<not> is_nested field v \<longrightarrow>
            visit_field L e prefix funcMap (field, v) = Next v None [])"
  using get_required [OF assms(1,2,3)] assms(4)
  by (simp add: getRequired_def visit_field_def)

theorem required_empty_succeeds_witness:
  "get example_lib [''NAME'' \<mapsto> []] (tagged ''Name'' TString ''NAME,required'' ''dflt'') [] =
     ([], None) \<and>
   visit_field example_lib [''NAME'' \<mapsto> []] [] Map.empty
     (tagged ''Name'' TString ''NAME,required'' ''dflt'', VString ''old'') =
     Next (VString ''old'') None []"
proof -
  let ?f = "tagged ''Name'' TString ''NAME,required'' ''dflt''"
  have k: "parseKeyForOption (Tag_env ?f) = (''NAME'', [''required''])"
    by (simp add: run_defs)
  have u: "LookupEnv [''NAME'' \<mapsto> []] ([] @ ''NAME'') = Some []"
    by (simp add: LookupEnv_def)
  have n: "\<not> is_nested ?f (VString ''old'')"
    by (simp add: is_nested_def tagged_def)
  show ?thesis
    using required_empty_succeeds [OF k _ _ u, of example_lib "VString ''old''" Map.empty] n
    by simp
qed

text \<open>
  The claim as it was stated fails on the tag \<open>env:"NAME,required,foo"\<close> with \<open>NAME\<close> set
  to the empty string: the field fails with the error about the option \<open>foo\<close>, and so
  does the parse of the record.
\<close>

theorem required_empty_counterexample:
  "parseKeyForOption (Tag_env (tagged ''Name'' TString ''NAME,required,foo'' [])) =
     (''NAME'', [''required'', ''foo'']) \<and>
   LookupEnv [''NAME'' \<mapsto> []] ([] @ ''NAME'') = Some [] \<and>
   get example_lib [''NAME'' \<mapsto> []] (tagged ''Name'' TString ''NAME,required,foo'' []) [] =
     ([], Some (OptionNotSupported example_lib ''foo'')) \<and>
   Parse example_lib [''NAME'' \<mapsto> []]
     (VPtr (VStruct [(tagged ''Name'' TString ''NAME,required,foo'' [], VString ''old'')])) =
   Return (Some (ErrorString (''env tag option '' @ [CHR 0x22] @ ''foo'' @ [CHR 0x22] @
                              '' not supported'')),
     VPtr (VStruct [(tagged ''Name'' TString ''NAME,required,foo'' [], VString ''old'')]), [])"
  by (simp add: run_defs)

text \<open>
  Claim C9.  For every field that the engine resolves and whose resolution yields the
  empty string without an error, the visit records no error, calls neither a
  converter nor the hook, and leaves the field as it was: the loop goes on to the next
  field with the same messages and the same calls, whatever parsers are registered.
\<close>

theorem empty_resolution_skips:
  assumes "get L e d prefix = ([], None)" and "\<not> is_nested d v"
  shows "visit_field L e prefix funcMap (d, v) = Next v None [] \<and>
         doParse_loop L e prefix funcMap done ((d, v) # rest) errorList calls =
         doParse_loop L e prefix funcMap (done @ [(d, v)]) rest errorList calls"
proof -
  have "visit_field L e prefix funcMap (d, v) = Next v None []"
    using assms by (simp add: visit_field_def)
  then show ?thesis by (simp add: doParse_loop_step)
qed

theorem empty_resolution_skips_witness:
  "get example_lib [''HOME'' \<mapsto> ''/root''] (tagged ''Name'' TString ''NAME'' []) [] = ([], None) \<and>
   visit_field example_lib [''HOME'' \<mapsto> ''/root''] [] Map.empty
     (tagged ''Name'' TString ''NAME'' [], VString ''old'') = Next (VString ''old'') None [] \<and>
   doParse_loop example_lib [''HOME'' \<mapsto> ''/root''] [] Map.empty []
     [(tagged ''Name'' TString ''NAME'' [], VString ''old'')] [] [] =
   Return (None, [(tagged ''Name'' TString ''NAME'' [], VString ''old'')], [])"
proof -
  let ?f = "tagged ''Name'' TString ''NAME'' []"
  have g: "get example_lib [''HOME'' \<mapsto> ''/root''] ?f [] = ([], None)"
    by (simp add: run_defs)
  have n: "\<not> is_nested ?f (VString ''old'')"
    by (simp add: is_nested_def tagged_def)
  show ?thesis
    using empty_resolution_skips [OF g n, of Map.empty "[]" "[]" "[]" "[]"] g
    by simp
qed

text \<open>
  Claim C10.  For every key, \<open>MustGet\<close> returns the value of the environment when the key
  is set, also when it is set to the empty string, and panics when the key is unset;
  its parameter \<open>defaultValue\<close> has no influence on the outcome.
\<close>

theorem MustGet_ignores_default:
  "(LookupEnv e key = Some v \<longrightarrow> MustGet e key defaultValue = Return v) \<and>
   (LookupEnv e key = None \<longrightarrow>
      MustGet e key defaultValue =
        Panic (PanicString (''expected environment variable '' @ [CHR 0x22] @ key @
                            [CHR 0x22] @ '' does not exist''))) \<and>
   MustGet e key defaultValue = MustGet e key other"
  by (simp add: MustGet_def)

theorem MustGet_ignores_default_witness:
  "MustGet [''HOME'' \<mapsto> []] ''HOME'' ''fallback'' = Return [] \<and>
   MustGet Map.empty ''HOME'' ''fallback'' =
     Panic (PanicString (''expected environment variable '' @ [CHR 0x22] @ ''HOME'' @
                         [CHR 0x22] @ '' does not exist'')) \<and>
   MustGet [''HOME'' \<mapsto> ''/root''] ''HOME'' ''fallback'' = Return ''/root''"
  using MustGet_ignores_default [of "[''HOME'' \<mapsto> []]" "''HOME''" "[]" "''fallback''"]
    MustGet_ignores_default [of Map.empty "''HOME''" "[]" "''fallback''"]
    MustGet_ignores_default [of "[''HOME'' \<mapsto> ''/root'']" "''HOME''" "''/root''" "''fallback''"]
  by (simp add: LookupEnv_def)

end
